theory Spec2Isabelle
  imports Complex_Main
begin

section \<open>The SP500 data pipeline and its back-test\<close>

text \<open>
  A shallow embedding of \<^verbatim>\<open>sp500_pipeline.py\<close> and of the back-test part of
  \<^verbatim>\<open>dashboard.py\<close>. A date or time stamp is an \<open>int\<close> (seconds, where the
  unit matters); a float cell is a \<open>real option\<close> with \<open>None\<close> for NaN, so
  floating-point rounding and the infinities are outside the model. A pandas call is modelled by what it does under the
  arguments the source passes, and each definition names the call it stands for.
\<close>

subsection \<open>Data frames\<close>

text \<open>
  A frame of the pipeline: the \<open>date\<close> column, the five OHLCV columns, and the list
  of the columns that are really present (\<^verbatim>\<open>df.columns\<close>). \<open>cell c r\<close> is
  \<^verbatim>\<open>df[c]\<close> at row \<open>r\<close>.
\<close>

datatype col = Open | High | Low | Close | Volume

record row =
  date :: int
  open_v :: "real option"
  high_v :: "real option"
  low_v :: "real option"
  close_v :: "real option"
  volume_v :: "real option"

record frame =
  columns :: "col list"
  rows :: "row list"

fun cell :: "col \<Rightarrow> row \<Rightarrow> real option" where
  "cell Open r = open_v r"
| "cell High r = high_v r"
| "cell Low r = low_v r"
| "cell Close r = close_v r"
| "cell Volume r = volume_v r"

subsection \<open>\<^verbatim>\<open>clean_data\<close>\<close>

text \<open>
  \<^verbatim>\<open>required_cols\<close> and \<^verbatim>\<open>existing_cols\<close> as in the source;
  \<open>dropna cs\<close> is \<^verbatim>\<open>df.dropna(subset=cs)\<close> (a row goes when any of the
  columns is NaN); \<open>drop_duplicates_last\<close> is
  \<^verbatim>\<open>df.drop_duplicates(subset=["date"], keep="last")\<close> (a row goes when a later row
  has its date; the survivors keep their order); \<open>sort_values\<close> is
  \<^verbatim>\<open>df.sort_values(by="date")\<close> (the dates are distinct by then, so every sorting
  algorithm gives this list); \<open>keep_nonneg c\<close> is \<^verbatim>\<open>df[df[c] >= 0]\<close>, where
  a NaN compares false.
\<close>

definition required_cols :: "col list" where
  "required_cols = [Open, High, Low, Close, Volume]"

definition existing_cols :: "frame \<Rightarrow> col list" where
  "existing_cols df = filter (\<lambda>c. c \<in> set (columns df)) required_cols"

definition notna_row :: "col list \<Rightarrow> row \<Rightarrow> bool" where
  "notna_row cs r = list_all (\<lambda>c. cell c r \<noteq> None) cs"

definition dropna :: "col list \<Rightarrow> row list \<Rightarrow> row list" where
  "dropna cs rs = filter (notna_row cs) rs"

fun drop_duplicates_last :: "row list \<Rightarrow> row list" where
  "drop_duplicates_last [] = []"
| "drop_duplicates_last (r # rs) =
     (if date r \<in> set (map date rs) then drop_duplicates_last rs
      else r # drop_duplicates_last rs)"

definition sort_values :: "row list \<Rightarrow> row list" where
  "sort_values rs = sort_key date rs"

definition ge_zero :: "col \<Rightarrow> row \<Rightarrow> bool" where
  "ge_zero c r = (case cell c r of None \<Rightarrow> False | Some v \<Rightarrow> 0 \<le> v)"

definition keep_nonneg :: "col \<Rightarrow> row list \<Rightarrow> row list" where
  "keep_nonneg c rs = filter (ge_zero c) rs"

definition clean_data :: "frame \<Rightarrow> frame" where
  "clean_data df =
     (let existing = existing_cols df;
          rs1 = dropna existing (rows df);
          rs2 = drop_duplicates_last rs1;
          rs3 = sort_values rs2;
          rs4 = fold keep_nonneg existing rs3
      in df\<lparr>rows := rs4\<rparr>)"


text \<open>The rows of a given date, in input order, and a small frame to evaluate on.\<close>

definition rows_on :: "int \<Rightarrow> row list \<Rightarrow> row list" where
  "rows_on d rs = filter (\<lambda>r. date r = d) rs"

definition full_row :: "int \<Rightarrow> real \<Rightarrow> row" where
  "full_row d v = \<lparr>date = d, open_v = Some v, high_v = Some v, low_v = Some v,
     close_v = Some v, volume_v = Some v\<rparr>"

definition ex_rows :: "row list" where
  "ex_rows = [full_row 3 10, full_row 1 5, (full_row 1 6)\<lparr>close_v := None\<rparr>,
     (full_row 2 7)\<lparr>close_v := Some (- 1)\<rparr>, full_row 3 11]"

definition ex_df :: frame where
  "ex_df = \<lparr>columns = [Open, High, Low, Close, Volume], rows = ex_rows\<rparr>"

subsection \<open>\<^verbatim>\<open>save_to_postgres\<close>\<close>

text \<open>
  The database as the function sees it: the table is missing, or it holds rows, or the
  connection fails in some other way. \<open>select_max_date\<close> is the query
  \<^verbatim>\<open>SELECT MAX(date) FROM table\<close>: it raises the "relation does not exist" error
  on a missing table, and returns NULL (\<open>None\<close>) on an empty one.
  \<open>to_sql_append\<close> is \<^verbatim>\<open>to_sql(..., if_exists="append")\<close>, which creates a
  missing table. Only the \<open>date\<close> of a row matters here, so rows carry any further
  columns (the moving averages among them).
\<close>

datatype db_error = UndefinedTable | OtherDbError

datatype 'r store = NoTable | Table "'r list" | Unavailable

fun max_date :: "'a row_scheme list \<Rightarrow> int option" where
  "max_date [] = None"
| "max_date (r # rs) =
     (case max_date rs of None \<Rightarrow> Some (date r) | Some m \<Rightarrow> Some (max (date r) m))"

fun select_max_date :: "'a row_scheme store \<Rightarrow> db_error + int option" where
  "select_max_date NoTable = Inl UndefinedTable"
| "select_max_date (Table rs) = Inr (max_date rs)"
| "select_max_date Unavailable = Inl OtherDbError"

fun to_sql_append :: "'a row_scheme list \<Rightarrow> 'a row_scheme store \<Rightarrow> 'a row_scheme store" where
  "to_sql_append df_new NoTable = Table df_new"
| "to_sql_append df_new (Table rs) = Table (rs @ df_new)"
| "to_sql_append df_new Unavailable = Unavailable"

text \<open>
  The body of \<^verbatim>\<open>save_to_postgres\<close> after the query: \<^verbatim>\<open>df_new\<close> is the frame
  itself when \<^verbatim>\<open>last_date\<close> is None, else its rows of a later date, and it is written
  only when it is not empty.
\<close>

definition write_new :: "'a row_scheme list \<Rightarrow> int option \<Rightarrow> 'a row_scheme store \<Rightarrow> 'a row_scheme store" where
  "write_new df last_date db =
     (let df_new = (case last_date of
                      Some d \<Rightarrow> filter (\<lambda>r. d < date r) df
                    | None \<Rightarrow> df)
      in if df_new \<noteq> [] then to_sql_append df_new db else db)"

definition save_to_postgres :: "'a row_scheme list \<Rightarrow> 'a row_scheme store \<Rightarrow> db_error + 'a row_scheme store" where
  "save_to_postgres df db =
     (case select_max_date db of
        Inr last_date \<Rightarrow> Inr (write_new df last_date db)
      | Inl e \<Rightarrow> if e = UndefinedTable then Inr (write_new df None db) else Inl e)"

definition store_rows :: "row list" where
  "store_rows = [full_row 1 5, full_row 2 6]"

definition fetched_rows :: "row list" where
  "fetched_rows = [full_row 1 5, full_row 2 6, full_row 3 7]"

subsection \<open>Series and the period of the back-test\<close>

text \<open>
  A pandas Series with a date index is a list of (date, value) pairs. \<open>loc_slice\<close> is
  \<^verbatim>\<open>s.loc[ts_start:ts_end]\<close> on an increasing index: the entries between the two
  bounds, both included. The period anchoring is the module-level code of the dashboard:
  \<open>now\<close> is \<^verbatim>\<open>pd.Timestamp.now()\<close> in seconds, \<open>normalize\<close> cuts it to midnight.
\<close>

type_synonym 'a series = "(int \<times> 'a) list"

definition day :: int where
  "day = 86400"

definition normalize :: "int \<Rightarrow> int" where
  "normalize ts = ts - ts mod day"

datatype period = Last_1_Year | Last_3_Years | Last_5_Years | All_Time_Max

fun period_days :: "period \<Rightarrow> int" where
  "period_days Last_1_Year = 365"
| "period_days Last_3_Years = 365 * 3"
| "period_days Last_5_Years = 365 * 5"
| "period_days All_Time_Max = 365 * 50"

definition today :: "int \<Rightarrow> int" where
  "today now = normalize now"

definition yesterday :: "int \<Rightarrow> int" where
  "yesterday now = today now - 1 * day"

definition start_date :: "int \<Rightarrow> period \<Rightarrow> int" where
  "start_date now selected_period = yesterday now - period_days selected_period * day"

definition end_date :: "int \<Rightarrow> int" where
  "end_date now = yesterday now"

definition loc_slice :: "int \<Rightarrow> int \<Rightarrow> 'a series \<Rightarrow> 'a series" where
  "loc_slice ts_start ts_end s = filter (\<lambda>x. ts_start \<le> fst x \<and> fst x \<le> ts_end) s"

text \<open>
  The spec's "most recent fully-settled trading day", in its words: the latest date of
  the price series that is before the current day. It is compared with \<open>end_date\<close>.
\<close>

definition most_recent_settled :: "int list \<Rightarrow> int \<Rightarrow> int option" where
  "most_recent_settled ds now =
     (let settled = filter (\<lambda>d. d < today now) ds
      in if settled = [] then None else Some (fold max settled (hd settled)))"

text \<open>
  Day 0 of the epoch is a Thursday: prices of Thursday and Friday, and the following
  Monday at ten in the morning.
\<close>

definition ex_close :: "real series" where
  "ex_close = [(0 * day, 100), (1 * day, 101)]"

definition monday_10am :: int where
  "monday_10am = 4 * day + 36000"

subsection \<open>\<^verbatim>\<open>sma_crossover_backtest\<close>\<close>

text \<open>
  The back-test calls four functions of the vectorbt library, which is not part of the
  repository: \<^verbatim>\<open>vbt.MA.run\<close>, \<^verbatim>\<open>ma_crossed_above\<close>, \<^verbatim>\<open>ma_crossed_below\<close> and
  \<^verbatim>\<open>vbt.Portfolio.from_signals\<close>. They are a parameter of the model: a record of
  functions, with the type of the portfolio left open.
\<close>

record 'pf vbt =
  MA_run :: "real series \<Rightarrow> int \<Rightarrow> real option series"
  ma_crossed_above :: "real option series \<Rightarrow> real option series \<Rightarrow> bool series"
  ma_crossed_below :: "real option series \<Rightarrow> real option series \<Rightarrow> bool series"
  from_signals :: "real series \<Rightarrow> bool series \<Rightarrow> bool series \<Rightarrow> real \<Rightarrow> 'pf"

text \<open>
  Steps 1 and 2 of \<^verbatim>\<open>sma_crossover_backtest\<close>: the indicators and the signals of the
  whole series, then the three slices (all of the series when a date is None). The
  parameters \<open>start_dt\<close> and \<open>end_dt\<close> are the source's \<^verbatim>\<open>start_date\<close> and
  \<^verbatim>\<open>end_date\<close>.
\<close>

definition backtest_slices ::
  "'pf vbt \<Rightarrow> real series \<Rightarrow> int \<Rightarrow> int \<Rightarrow> int option \<Rightarrow> int option \<Rightarrow>
   real series \<times> bool series \<times> bool series" where
  "backtest_slices lib close_price short_window long_window start_dt end_dt =
     (let fast_ma = MA_run lib close_price short_window;
          slow_ma = MA_run lib close_price long_window;
          entries = ma_crossed_above lib fast_ma slow_ma;
          exits = ma_crossed_below lib fast_ma slow_ma
      in case (start_dt, end_dt) of
           (Some ts_start, Some ts_end) \<Rightarrow>
             (loc_slice ts_start ts_end close_price,
              loc_slice ts_start ts_end entries,
              loc_slice ts_start ts_end exits)
         | _ \<Rightarrow> (close_price, entries, exits))"

text \<open>
  Step 3: None for an empty slice, else the portfolio of the library's simulator with
  the initial cash of 100000.
\<close>

definition sma_crossover_backtest ::
  "'pf vbt \<Rightarrow> real series \<Rightarrow> int \<Rightarrow> int \<Rightarrow> int option \<Rightarrow> int option \<Rightarrow> 'pf option" where
  "sma_crossover_backtest lib close_price short_window long_window start_dt end_dt =
     (case backtest_slices lib close_price short_window long_window start_dt end_dt of
        (close_slice, entries_slice, exits_slice) \<Rightarrow>
          if close_slice = [] then None
          else Some (from_signals lib close_slice entries_slice exits_slice 100000))"

text \<open>
  The second column of the results row of the dashboard: \<^verbatim>\<open>win_rate\<close> and
  \<^verbatim>\<open>trades\<close> are \<^verbatim>\<open>stats['Win Rate [%]']\<close> and \<^verbatim>\<open>stats['Total Trades']\<close>;
  \<^verbatim>\<open>pd.notna\<close> is \<open>Some\<close>. The metric carries the number that
  \<^verbatim>\<open>fmt\<close> prints.
\<close>

datatype metric = Win_Rate real | Current_Status_Holding | Current_Status_No_Trades

definition col2_metric :: "real option \<Rightarrow> real \<Rightarrow> metric" where
  "col2_metric wr total_trades =
     (case wr of
        Some v \<Rightarrow> Win_Rate v
      | None \<Rightarrow> if total_trades > 0 then Current_Status_Holding else Current_Status_No_Trades)"

subsection \<open>The library, as the spec describes it\<close>

text \<open>
  Modelled from the spec: the windowed mean behind \<^verbatim>\<open>rolling(window=w).mean()\<close>
  and \<^verbatim>\<open>vbt.MA.run\<close> is library code that is not in the repository. Spec 4.1: the
  value at index \<open>i\<close> is the mean of the \<open>w\<close> values ending at \<open>i\<close>, undefined
  before \<open>w\<close> observations; a NaN in the window leaves it undefined.
\<close>

definition window_mean :: "nat \<Rightarrow> real option list \<Rightarrow> nat \<Rightarrow> real option" where
  "window_mean w xs i =
     (if w = 0 \<or> i + 1 < w then None
      else let win = take w (drop (i + 1 - w) xs)
           in if list_all (\<lambda>x. x \<noteq> None) win then Some (sum_list (map the win) / real w)
              else None)"

text \<open>
  Modelled from the spec: the aligned indicator series of spec 4.1, one value of
  \<open>window_mean\<close> per index.
\<close>

definition rolling_mean :: "nat \<Rightarrow> real option list \<Rightarrow> real option list" where
  "rolling_mean w xs = map (window_mean w xs) [0..<length xs]"

text \<open>
  Modelled from the spec: \<^verbatim>\<open>vbt.MA.run(close_price, w)\<close>, the indicator of
  spec 4.1 on a dated price series.
\<close>

definition moving_average :: "real series \<Rightarrow> int \<Rightarrow> real option series" where
  "moving_average close_price w =
     zip (map fst close_price) (rolling_mean (nat w) (map (\<lambda>x. Some (snd x)) close_price))"

text \<open>
  Modelled from the spec: the crossover rule of spec 3 and 4.2 at one index, from
  the previous and the current sample of the fast and the slow indicator; false when
  any of the four is undefined. The library's \<^verbatim>\<open>ma_crossed_above\<close> is not in
  the repository.
\<close>

fun crossed_above_at :: "real option \<Rightarrow> real option \<Rightarrow> real option \<Rightarrow> real option \<Rightarrow> bool" where
  "crossed_above_at (Some fp) (Some sp) (Some f) (Some s) = (fp \<le> sp \<and> f > s)"
| "crossed_above_at _ _ _ _ = False"

text \<open>
  Modelled from the spec: the symmetric rule of spec 3 and 4.2 for a crossing
  below (\<^verbatim>\<open>ma_crossed_below\<close>).
\<close>

fun crossed_below_at :: "real option \<Rightarrow> real option \<Rightarrow> real option \<Rightarrow> real option \<Rightarrow> bool" where
  "crossed_below_at (Some fp) (Some sp) (Some f) (Some s) = (fp \<ge> sp \<and> f < s)"
| "crossed_below_at _ _ _ _ = False"

text \<open>
  Modelled from the spec: the signal generator of spec 4.2 as one pass over the two
  aligned indicators that carries the previous sample; there is none before the first
  index.
\<close>

fun scan_cross ::
  "(real option \<Rightarrow> real option \<Rightarrow> real option \<Rightarrow> real option \<Rightarrow> bool) \<Rightarrow>
   real option \<Rightarrow> real option \<Rightarrow> (real option \<times> real option) list \<Rightarrow> bool list" where
  "scan_cross cross fp sp [] = []"
| "scan_cross cross fp sp ((f, s) # rest) = cross fp sp f s # scan_cross cross f s rest"

text \<open>
  Modelled from the spec: the entry series of spec 3.
\<close>

definition crossed_above :: "real option list \<Rightarrow> real option list \<Rightarrow> bool list" where
  "crossed_above fast slow = scan_cross crossed_above_at None None (zip fast slow)"

text \<open>
  Modelled from the spec: the exit series of spec 3.
\<close>

definition crossed_below :: "real option list \<Rightarrow> real option list \<Rightarrow> bool list" where
  "crossed_below fast slow = scan_cross crossed_below_at None None (zip fast slow)"

text \<open>
  Modelled from the spec: \<^verbatim>\<open>fast_ma.ma_crossed_above(slow_ma)\<close> on dated
  series, by the rule of spec 4.2.
\<close>

definition crossed_above_series :: "real option series \<Rightarrow> real option series \<Rightarrow> bool series" where
  "crossed_above_series fast slow = zip (map fst fast) (crossed_above (map snd fast) (map snd slow))"

text \<open>
  Modelled from the spec: \<^verbatim>\<open>fast_ma.ma_crossed_below(slow_ma)\<close> on dated
  series, by the rule of spec 4.2.
\<close>

definition crossed_below_series :: "real option series \<Rightarrow> real option series \<Rightarrow> bool series" where
  "crossed_below_series fast slow = zip (map fst fast) (crossed_below (map snd fast) (map snd slow))"

text \<open>
  Modelled from the spec: the Trade of spec 3, a closed round trip. The simulator
  \<^verbatim>\<open>vbt.Portfolio.from_signals\<close> and its result are library code that is not in the
  repository.
\<close>

record trade =
  entry_date :: int
  entry_price :: real
  exit_date :: int
  exit_price :: real
  quantity :: real
  pnl :: real
  return_pct :: real

text \<open>
  Modelled from the spec: the Position of spec 3: flat, or long with the quantity,
  the entry price and the entry date.
\<close>

datatype position = FLAT | LONG real real int

text \<open>
  Modelled from the spec: the PortfolioResult of spec 3, which is also the state of
  the simulator: cash, position, closed trades and equity curve.
\<close>

record portfolio =
  cash :: real
  position :: position
  trades :: "trade list"
  equity :: "real series"

text \<open>
  Modelled from the spec: the Trade closed on an exit (spec 4.4), with
  P and L = quantity * (exit price - entry price) and the return in percent.
\<close>

definition close_trade :: "real \<Rightarrow> real \<Rightarrow> int \<Rightarrow> real \<Rightarrow> int \<Rightarrow> trade" where
  "close_trade q ep ed p d =
     \<lparr>entry_date = ed, entry_price = ep, exit_date = d, exit_price = p, quantity = q,
      pnl = q * (p - ep), return_pct = q * (p - ep) / (q * ep) * 100\<rparr>"

text \<open>
  Modelled from the spec: the state machine of spec 4.4 on one date, with exact
  fractional units; when both signals are true the exit takes precedence.
\<close>

definition transition :: "portfolio \<Rightarrow> int \<Rightarrow> real \<Rightarrow> bool \<Rightarrow> bool \<Rightarrow> portfolio" where
  "transition s d p en ex =
     (if ex then
        (case position s of
           LONG q ep ed \<Rightarrow>
             s\<lparr>cash := cash s + q * p, position := FLAT,
               trades := trades s @ [close_trade q ep ed p d]\<rparr>
         | FLAT \<Rightarrow> s)
      else if en then
        (case position s of
           FLAT \<Rightarrow> s\<lparr>cash := 0, position := LONG (cash s / p) p d\<rparr>
         | LONG q ep ed \<Rightarrow> s)
      else s)"

text \<open>
  Modelled from the spec: the value of an EquityPoint (spec 4.4): the cash
  when flat, else quantity * price.
\<close>

definition mark_to_market :: "portfolio \<Rightarrow> real \<Rightarrow> real" where
  "mark_to_market s p = (case position s of FLAT \<Rightarrow> cash s | LONG q ep ed \<Rightarrow> q * p)"

text \<open>
  Modelled from the spec: one date of the replay of spec 4.4: the transition, then the
  equity point of that date.
\<close>

fun step :: "portfolio \<Rightarrow> int \<times> real \<times> bool \<times> bool \<Rightarrow> portfolio" where
  "step s (d, p, en, ex) =
     (let s' = transition s d p en ex
      in s'\<lparr>equity := equity s' @ [(d, mark_to_market s' p)]\<rparr>)"

text \<open>
  Modelled from the spec: the simulator starts flat with the initial cash (spec 4.4).
\<close>

definition initial :: "real \<Rightarrow> portfolio" where
  "initial init_cash = \<lparr>cash = init_cash, position = FLAT, trades = [], equity = []\<rparr>"

text \<open>
  Modelled from the spec: the replay of spec 4.4, date by date in order.
\<close>

definition replay :: "real \<Rightarrow> (int \<times> real \<times> bool \<times> bool) list \<Rightarrow> portfolio" where
  "replay init_cash bars = foldl step (initial init_cash) bars"

text \<open>
  Modelled from the spec: the aligned price and signal series of spec 4.4 as one list
  of (date, price, entry, exit).
\<close>

definition aligned :: "real series \<Rightarrow> bool series \<Rightarrow> bool series \<Rightarrow> (int \<times> real \<times> bool \<times> bool) list" where
  "aligned close entries exits =
     map (\<lambda>(c, en, ex). (fst c, snd c, snd en, snd ex)) (zip close (zip entries exits))"

text \<open>
  Modelled from the spec: \<^verbatim>\<open>vbt.Portfolio.from_signals\<close> as the Portfolio
  Simulator of spec 4.4.
\<close>

definition simulate :: "real series \<Rightarrow> bool series \<Rightarrow> bool series \<Rightarrow> real \<Rightarrow> portfolio" where
  "simulate close entries exits init_cash = replay init_cash (aligned close entries exits)"

text \<open>
  Modelled from the spec: the four library functions together, each as the spec
  describes it.
\<close>

definition vbt_spec :: "portfolio vbt" where
  "vbt_spec = \<lparr>MA_run = moving_average, ma_crossed_above = crossed_above_series,
     ma_crossed_below = crossed_below_series, from_signals = simulate\<rparr>"

text \<open>
  Modelled from the spec: the Win Rate of spec 4.5 (\<^verbatim>\<open>stats['Win Rate [%]']\<close> of
  the library): undefined without closed trades, else the share of closed trades with
  a positive P and L, in percent.
\<close>

definition win_rate :: "trade list \<Rightarrow> real option" where
  "win_rate ts =
     (if ts = [] then None
      else Some (real (length (filter (\<lambda>t. 0 < pnl t) ts)) / real (length ts) * 100))"

subsection \<open>\<^verbatim>\<open>calculate_moving_averages\<close>\<close>

text \<open>
  The pipeline adds a column \<^verbatim>\<open>MA_w\<close> for each window when the frame has a Close
  column: here the list of the windows with their columns.
\<close>

definition calculate_moving_averages :: "frame \<Rightarrow> nat list \<Rightarrow> (nat \<times> real option list) list" where
  "calculate_moving_averages df windows =
     (if Close \<in> set (columns df)
      then map (\<lambda>w. (w, rolling_mean w (map close_v (rows df)))) windows
      else [])"

subsection \<open>Inputs to evaluate on\<close>

definition ex_prices :: "real series" where
  "ex_prices = [(1, 10), (2, 20), (3, 30), (4, 40)]"

definition ex_fast :: "real option list" where
  "ex_fast = [None, Some 1, Some 3]"

definition ex_slow :: "real option list" where
  "ex_slow = [None, Some 2, Some 2]"

definition ex_trades :: "trade list" where
  "ex_trades = [close_trade 2 50 1 75 2, close_trade 1 50 3 40 4]"

section \<open>Properties\<close>

subsection \<open>\<^verbatim>\<open>clean_data\<close>\<close>

lemma fold_keep_nonneg:
  "fold keep_nonneg cs rs = filter (\<lambda>r. list_all (\<lambda>c. ge_zero c r) cs) rs"
proof (induction cs arbitrary: rs)
  case Nil
  show ?case by simp
next
  case (Cons c cs)
  have "fold keep_nonneg (c # cs) rs = fold keep_nonneg cs (keep_nonneg c rs)"
    by simp
  also have "\<dots> = filter (\<lambda>r. list_all (\<lambda>c. ge_zero c r) cs) (keep_nonneg c rs)"
    by (rule Cons.IH)
  also have "\<dots> = filter (\<lambda>r. list_all (\<lambda>c. ge_zero c r) (c # cs)) rs"
    by (simp add: keep_nonneg_def conj_commute)
  finally show ?case .
qed

lemma set_drop_duplicates_last: "set (drop_duplicates_last rs) \<subseteq> set rs"
  by (induction rs) auto

lemma dates_drop_duplicates_last:
  "set (map date (drop_duplicates_last rs)) = set (map date rs)"
  by (induction rs) auto

lemma distinct_drop_duplicates_last: "distinct (map date (drop_duplicates_last rs))"
proof (induction rs)
  case Nil
  show ?case by simp
next
  case (Cons r rs)
  have "set (map date (drop_duplicates_last rs)) = set (map date rs)"
    by (rule dates_drop_duplicates_last)
  with Cons show ?case by auto
qed

lemma last_drop_duplicates_last:
  "x \<in> set (drop_duplicates_last rs) \<Longrightarrow> last (filter (\<lambda>y. date y = date x) rs) = x"
proof (induction rs)
  case Nil
  then show ?case by simp
next
  case (Cons r rs)
  show ?case
  proof (cases "x \<in> set (drop_duplicates_last rs)")
    case True
    then have ih: "last (filter (\<lambda>y. date y = date x) rs) = x" by (rule Cons.IH)
    from True have "x \<in> set rs" using set_drop_duplicates_last by blast
    then have "filter (\<lambda>y. date y = date x) rs \<noteq> []"
      by (auto simp: filter_empty_conv)
    with ih show ?thesis by simp
  next
    case False
    with Cons.prems have new: "date r \<notin> set (map date rs)" and xr: "x = r"
      by (auto split: if_splits)
    have "\<And>y. y \<in> set rs \<Longrightarrow> date y \<noteq> date r"
    proof
      fix y assume "y \<in> set rs" and "date y = date r"
      then have "date r \<in> set (map date rs)" by (metis image_eqI set_map)
      with new show False by simp
    qed
    with xr have "filter (\<lambda>y. date y = date x) rs = []"
      by (simp add: filter_empty_conv)
    then show ?thesis using xr by simp
  qed
qed

lemma strict_sort_values:
  assumes "distinct (map date rs)"
  shows "sorted_wrt (<) (map date (sort_values rs))"
proof -
  have "distinct (map date (sort_values rs))"
    using assms by (simp add: sort_values_def distinct_map)
  moreover have "sorted (map date (sort_values rs))"
    by (simp add: sort_values_def)
  ultimately show ?thesis by (simp add: strict_sorted_iff)
qed

lemma strict_filter_dates:
  "sorted_wrt (<) (map date rs) \<Longrightarrow> sorted_wrt (<) (map date (filter P rs))"
  by (induction rs) auto


lemma drop_duplicates_last_complete:
  "x \<in> set rs \<Longrightarrow> last (filter (\<lambda>y. date y = date x) rs) = x \<Longrightarrow>
   x \<in> set (drop_duplicates_last rs)"
proof (induction rs)
  case Nil
  then show ?case by simp
next
  case (Cons r rs)
  let ?f = "filter (\<lambda>y. date y = date x)"
  show ?case
  proof (cases "x = r \<and> date r \<notin> set (map date rs)")
    case True
    then show ?thesis by simp
  next
    case False
    have tail: "x \<in> set rs \<and> last (?f rs) = x"
    proof (cases "date r = date x")
      case same: True
      have ne: "?f rs \<noteq> []"
      proof (cases "x = r")
        case True
        with False have "date r \<in> set (map date rs)" by simp
        then obtain y where "y \<in> set rs" "date y = date r" by auto
        with same show ?thesis by (auto simp: filter_empty_conv)
      next
        case False
        with Cons.prems(1) have "x \<in> set rs" by simp
        then show ?thesis by (auto simp: filter_empty_conv)
      qed
      with Cons.prems(2) same have l: "last (?f rs) = x" by simp
      from ne have "last (?f rs) \<in> set (?f rs)" by (rule last_in_set)
      with l show ?thesis by simp
    next
      case diff: False
      then have "x \<noteq> r" by auto
      with Cons.prems diff show ?thesis by simp
    qed
    then have "x \<in> set (drop_duplicates_last rs)" by (simp add: Cons.IH)
    then show ?thesis by simp
  qed
qed

lemma drop_duplicates_last_iff:
  "x \<in> set (drop_duplicates_last rs) \<longleftrightarrow> x \<in> set rs \<and> last (rows_on (date x) rs) = x"
  unfolding rows_on_def
  using last_drop_duplicates_last drop_duplicates_last_complete set_drop_duplicates_last
  by blast

lemma rows_clean_data:
  "rows (clean_data df) =
     filter (\<lambda>r. list_all (\<lambda>c. ge_zero c r) (existing_cols df))
       (sort_values (drop_duplicates_last (dropna (existing_cols df) (rows df))))"
  by (simp add: clean_data_def Let_def fold_keep_nonneg)

lemma ge_zero_Some: "ge_zero c r \<longleftrightarrow> (\<exists>v. cell c r = Some v \<and> 0 \<le> v)"
  by (simp add: ge_zero_def split: option.splits)

text \<open>
  C7: the output of \<open>clean_data\<close> has strictly increasing (hence unique) dates, every
  output row is a row of the input, and in every present OHLCV column each output row
  has a value that is not missing and not negative.
\<close>

theorem clean_data_ordered_nonneg:
  "sorted_wrt (<) (map date (rows (clean_data df))) \<and>
   (\<forall>r \<in> set (rows (clean_data df)).
      r \<in> set (rows df) \<and>
      (\<forall>c \<in> set (existing_cols df). \<exists>v. cell c r = Some v \<and> 0 \<le> v))"
proof (intro conjI ballI)
  show "sorted_wrt (<) (map date (rows (clean_data df)))"
    unfolding rows_clean_data
    by (intro strict_filter_dates strict_sort_values distinct_drop_duplicates_last)
next
  fix r assume "r \<in> set (rows (clean_data df))"
  then have "r \<in> set (drop_duplicates_last (dropna (existing_cols df) (rows df)))"
    by (simp add: rows_clean_data sort_values_def)
  then have "r \<in> set (dropna (existing_cols df) (rows df))"
    using set_drop_duplicates_last by blast
  then show "r \<in> set (rows df)" by (simp add: dropna_def)
next
  fix r c assume "r \<in> set (rows (clean_data df))" and "c \<in> set (existing_cols df)"
  then have "ge_zero c r" by (simp add: rows_clean_data list_all_iff)
  then show "\<exists>v. cell c r = Some v \<and> 0 \<le> v" by (simp add: ge_zero_Some)
qed

text \<open>
  C10, as amended: the output has at most one row per date, and a row is in the output
  exactly when it has no missing value in the existing required columns, is the last
  such row of its date in input order, and has no negative value in those columns.
\<close>

theorem clean_data_keeps_last_complete_row:
  "distinct (map date (rows (clean_data df))) \<and>
   (r \<in> set (rows (clean_data df)) \<longleftrightarrow>
      r \<in> set (dropna (existing_cols df) (rows df)) \<and>
      last (rows_on (date r) (dropna (existing_cols df) (rows df))) = r \<and>
      list_all (\<lambda>c. ge_zero c r) (existing_cols df))"
proof
  have "sorted_wrt (<) (map date (rows (clean_data df)))"
    unfolding rows_clean_data
    by (intro strict_filter_dates strict_sort_values distinct_drop_duplicates_last)
  then show "distinct (map date (rows (clean_data df)))"
    by (simp add: strict_sorted_iff)
next
  show "r \<in> set (rows (clean_data df)) \<longleftrightarrow>
      r \<in> set (dropna (existing_cols df) (rows df)) \<and>
      last (rows_on (date r) (dropna (existing_cols df) (rows df))) = r \<and>
      list_all (\<lambda>c. ge_zero c r) (existing_cols df)"
    by (auto simp: rows_clean_data sort_values_def drop_duplicates_last_iff)
qed

lemma ex_clean: "rows (clean_data ex_df) = [full_row 1 5, full_row 3 11]"
  by (simp add: rows_clean_data ex_df_def ex_rows_def existing_cols_def required_cols_def
      dropna_def notna_row_def full_row_def sort_values_def ge_zero_def)

theorem clean_data_ordered_nonneg_witness:
  "full_row 1 5 \<in> set (rows (clean_data ex_df)) \<and>
   Close \<in> set (existing_cols ex_df) \<and>
   sorted_wrt (<) (map date (rows (clean_data ex_df))) \<and>
   full_row 1 5 \<in> set (rows ex_df) \<and>
   (\<exists>v. cell Close (full_row 1 5) = Some v \<and> 0 \<le> v)"
proof -
  have m: "full_row 1 5 \<in> set (rows (clean_data ex_df))"
    by (simp add: ex_clean)
  have c: "Close \<in> set (existing_cols ex_df)"
    by (simp add: existing_cols_def required_cols_def ex_df_def)
  from clean_data_ordered_nonneg [of ex_df] m c show ?thesis by blast
qed

theorem clean_data_keeps_last_complete_row_witness:
  "full_row 1 5 \<in> set (rows (clean_data ex_df)) \<and>
   distinct (map date (rows (clean_data ex_df))) \<and>
   last (rows_on 1 (dropna (existing_cols ex_df) (rows ex_df))) = full_row 1 5"
proof -
  have m: "full_row 1 5 \<in> set (rows (clean_data ex_df))"
    by (simp add: ex_clean)
  have d: "date (full_row 1 5) = 1"
    by (simp add: full_row_def)
  from clean_data_keeps_last_complete_row [of ex_df "full_row 1 5"] m d
  show ?thesis by simp
qed

text \<open>
  The last row of date 1 in the input has a missing Close; it is dropped before the
  duplicates are, and the earlier row of that date is the one kept.
\<close>

theorem clean_data_last_duplicate_counterexample:
  "last (rows_on 1 (rows ex_df)) = (full_row 1 6)\<lparr>close_v := None\<rparr> \<and>
   rows (clean_data ex_df) = [full_row 1 5, full_row 3 11] \<and>
   full_row 1 5 \<noteq> (full_row 1 6)\<lparr>close_v := None\<rparr>"
  by (simp add: ex_clean) (simp add: rows_on_def ex_df_def ex_rows_def full_row_def)

subsection \<open>\<^verbatim>\<open>save_to_postgres\<close>\<close>

lemma max_date_None: "max_date rs = None \<longleftrightarrow> rs = []"
  by (cases rs) (auto split: option.splits)

lemma max_date_Max: "rs \<noteq> [] \<Longrightarrow> max_date rs = Some (Max (set (map date rs)))"
proof (induction rs)
  case Nil
  then show ?case by simp
next
  case (Cons r rs)
  show ?case
  proof (cases "rs = []")
    case True
    then show ?thesis by simp
  next
    case False
    with Cons.IH have "max_date rs = Some (Max (set (map date rs)))" by simp
    moreover have "Max (set (map date (r # rs))) = max (date r) (Max (set (map date rs)))"
      using False by (simp add: Max_insert)
    ultimately show ?thesis by simp
  qed
qed

text \<open>
  What the function does where a row gets written: on a table that holds rows, the rows
  of the frame dated after the stored maximum are appended, in order; on an empty
  table, and on a missing table with a frame that is not empty, the whole frame is
  written (which creates the missing table); any other database error is returned.
\<close>

lemma save_to_postgres_new_rows:
  "(rs \<noteq> [] \<longrightarrow>
      save_to_postgres df (Table rs) =
        Inr (Table (rs @ filter (\<lambda>r. Max (set (map date rs)) < date r) df))) \<and>
   save_to_postgres df (Table []) = Inr (Table df) \<and>
   (df \<noteq> [] \<longrightarrow> save_to_postgres df NoTable = Inr (Table df)) \<and>
   save_to_postgres df Unavailable = Inl OtherDbError"
proof (intro conjI impI)
  assume ne: "rs \<noteq> []"
  then show "save_to_postgres df (Table rs) =
        Inr (Table (rs @ filter (\<lambda>r. Max (set (map date rs)) < date r) df))"
    by (simp add: save_to_postgres_def write_new_def max_date_Max Let_def del: Max_less_iff)
qed (simp_all add: save_to_postgres_def write_new_def Let_def)

lemma save_to_postgres_new_rows_example:
  "save_to_postgres fetched_rows (Table store_rows) = Inr (Table (store_rows @ [full_row 3 7]))"
proof -
  have n: "store_rows \<noteq> []"
    by (simp add: store_rows_def)
  have m: "Max (set (map date store_rows)) = 2"
    by (simp add: store_rows_def full_row_def)
  have f: "filter (\<lambda>r. 2 < date r) fetched_rows = [full_row 3 7]"
    by (simp add: fetched_rows_def full_row_def)
  from save_to_postgres_new_rows [of store_rows fetched_rows] n m f
  show ?thesis by (simp del: Max_less_iff)
qed

text \<open>
  C9: on a first run, where no table exists, all rows are to be written and the table
  created. With an empty frame the function returns without an error and the table is
  still missing: the write that would create it is skipped for an empty \<open>df_new\<close>.
\<close>

theorem save_to_postgres_empty_first_run:
  "save_to_postgres ([] :: row list) NoTable = Inr NoTable"
  by (simp add: save_to_postgres_def write_new_def)

subsection \<open>The period of the back-test\<close>

lemma sorted_le_last:
  "sorted (xs :: int list) \<Longrightarrow> x \<in> set xs \<Longrightarrow> x \<le> last xs"
  by (induction xs) auto

lemma last_slice_greatest:
  assumes "sorted_wrt (<) (map fst s)" and "loc_slice a b s \<noteq> []"
  shows "last (loc_slice a b s) \<in> set s \<and> a \<le> fst (last (loc_slice a b s)) \<and>
         fst (last (loc_slice a b s)) \<le> b \<and>
         (\<forall>y \<in> set s. fst y \<le> b \<longrightarrow> fst y \<le> fst (last (loc_slice a b s)))"
proof -
  let ?sl = "loc_slice a b s"
  have mem: "last ?sl \<in> set ?sl" using assms(2) by (rule last_in_set)
  then have in_s: "last ?sl \<in> set s" and lo: "a \<le> fst (last ?sl)" and hi: "fst (last ?sl) \<le> b"
    by (simp_all add: loc_slice_def)
  have "sorted (map fst s)" using assms(1) by (simp add: strict_sorted_iff)
  then have srt: "sorted (map fst ?sl)"
    unfolding loc_slice_def by (rule sorted_filter)
  have top: "fst y \<le> fst (last ?sl)" if "y \<in> set ?sl" for y
  proof -
    from that have "fst y \<in> set (map fst ?sl)" by simp
    with srt have "fst y \<le> last (map fst ?sl)" by (rule sorted_le_last)
    then show ?thesis using assms(2) by (simp add: last_map)
  qed
  have "fst y \<le> fst (last ?sl)" if "y \<in> set s" "fst y \<le> b" for y
  proof (cases "a \<le> fst y")
    case True
    with that have "y \<in> set ?sl" by (simp add: loc_slice_def)
    then show ?thesis by (rule top)
  next
    case False
    with lo show ?thesis by simp
  qed
  with in_s lo hi show ?thesis by blast
qed

text \<open>
  C6, as amended: \<open>end_date\<close> is the calendar day before the current day, so never the
  current day, whether or not it is a trading day; \<open>start_date\<close> is \<open>end_date\<close> minus
  the selected number of days; and when the slice of an increasing series to the period
  is not empty, its last entry is the most recent entry of the series that is not later
  than \<open>end_date\<close>.
\<close>

theorem period_anchor:
  "end_date now = normalize now - day \<and>
   end_date now < today now \<and> today now \<le> now \<and> now < today now + day \<and>
   start_date now p = end_date now - period_days p * day \<and>
   (sorted_wrt (<) (map fst s) \<and> loc_slice (start_date now p) (end_date now) s \<noteq> [] \<longrightarrow>
      last (loc_slice (start_date now p) (end_date now) s) \<in> set s \<and>
      fst (last (loc_slice (start_date now p) (end_date now) s)) \<le> end_date now \<and>
      (\<forall>y \<in> set s. fst y \<le> end_date now \<longrightarrow>
         fst y \<le> fst (last (loc_slice (start_date now p) (end_date now) s))))"
proof -
  have "0 \<le> now mod day" and "now mod day < day"
    by (simp_all add: day_def)
  then have "today now \<le> now" and "now < today now + day"
    by (simp_all add: today_def normalize_def)
  moreover have "end_date now = normalize now - day" and "end_date now < today now"
    by (simp_all add: end_date_def yesterday_def today_def day_def)
  moreover have "start_date now p = end_date now - period_days p * day"
    by (simp add: start_date_def end_date_def)
  ultimately show ?thesis
    using last_slice_greatest [of s "start_date now p" "end_date now"] by blast
qed

lemma ex_dates: "end_date monday_10am = 3 * day" "start_date monday_10am Last_1_Year = -362 * day"
  by (simp_all add: end_date_def start_date_def yesterday_def today_def normalize_def monday_10am_def day_def)

theorem period_anchor_witness:
  "sorted_wrt (<) (map fst ex_close) \<and>
   loc_slice (start_date monday_10am Last_1_Year) (end_date monday_10am) ex_close \<noteq> [] \<and>
   last (loc_slice (start_date monday_10am Last_1_Year) (end_date monday_10am) ex_close) = (1 * day, 101) \<and>
   end_date monday_10am = 3 * day"
proof -
  have e: "loc_slice (start_date monday_10am Last_1_Year) (end_date monday_10am) ex_close = ex_close"
    by (simp add: ex_dates) (simp add: loc_slice_def ex_close_def day_def)
  have s: "sorted_wrt (<) (map fst ex_close)"
    by (simp add: ex_close_def day_def)
  have n: "ex_close \<noteq> []" by (simp add: ex_close_def)
  from period_anchor [of monday_10am Last_1_Year ex_close] e s n
  show ?thesis by (simp add: ex_dates) (simp add: ex_close_def)
qed

text \<open>
  On a Monday morning, with prices up to Friday, \<open>end_date\<close> is the Sunday: not a date
  of the series, and not the most recent settled trading day.
\<close>

theorem end_date_not_trading_day_counterexample:
  "end_date monday_10am = 3 * day \<and>
   most_recent_settled (map fst ex_close) monday_10am = Some (1 * day) \<and>
   3 * day \<noteq> 1 * day \<and> 3 * day \<notin> set (map fst ex_close)"
  by (simp add: ex_dates)
     (simp add: most_recent_settled_def today_def normalize_def monday_10am_def ex_close_def day_def)

subsection \<open>Moving averages\<close>

lemma sum_list_window:
  fixes ps :: "real list"
  assumes "j + w \<le> length ps"
  shows "sum_list (take w (drop j ps)) = (\<Sum>k = j..<j + w. ps ! k)"
proof -
  have "sum_list (take w (drop j ps)) = (\<Sum>k = 0..<w. take w (drop j ps) ! k)"
    using assms by (simp add: sum_list_sum_nth)
  also have "\<dots> = (\<Sum>k = 0..<w. ps ! (j + k))"
    using assms by (intro sum.cong) simp_all
  also have "\<dots> = (\<Sum>k = j..<j + w. ps ! k)"
    using sum.shift_bounds_nat_ivl [of "\<lambda>k. ps ! k" 0 j w] by (simp add: add.commute)
  finally show ?thesis .
qed

lemma window_mean_defined:
  assumes "1 \<le> w" and "i < length ps"
  shows "window_mean w (map Some ps) i =
           (if w - 1 \<le> i then Some ((\<Sum>k = i + 1 - w..i. ps ! k) / real w) else None)"
proof (cases "w - 1 \<le> i")
  case False
  then have "i + 1 < w" by arith
  with False show ?thesis by (simp add: window_mean_def)
next
  case True
  let ?j = "i + 1 - w"
  have jw: "?j + w = i + 1" using True assms by simp
  have win: "take w (drop ?j (map Some ps)) = map Some (take w (drop ?j ps))"
    by (simp add: take_map drop_map)
  have "sum_list (take w (drop ?j ps)) = (\<Sum>k = ?j..<?j + w. ps ! k)"
    using jw assms by (intro sum_list_window) simp
  also have "\<dots> = (\<Sum>k = ?j..i. ps ! k)"
    unfolding jw by (simp add: atLeastLessThanSuc_atLeastAtMost)
  finally have s: "sum_list (take w (drop ?j ps)) = (\<Sum>k = ?j..i. ps ! k)" .
  have "\<not> (w = 0 \<or> i + 1 < w)" using True assms by simp
  then show ?thesis
    using True s
    by (simp add: window_mean_def take_map drop_map list_all_iff comp_def Let_def image_iff)
qed

lemma rolling_mean_nth:
  assumes "1 \<le> w" and "i < length ps"
  shows "rolling_mean w (map Some ps) ! i =
           (if w - 1 \<le> i then Some ((\<Sum>k = i + 1 - w..i. ps ! k) / real w) else None)"
  using assms by (simp add: rolling_mean_def window_mean_defined)

lemma length_rolling_mean: "length (rolling_mean w xs) = length xs"
  by (simp add: rolling_mean_def)

lemma moving_average_dates: "map fst (moving_average close w) = map fst close"
  by (simp add: moving_average_def length_rolling_mean)

lemma moving_average_nth:
  assumes "1 \<le> w" and "i < length close"
  shows "snd (moving_average close (int w) ! i) =
           (if w - 1 \<le> i then Some ((\<Sum>k = i + 1 - w..i. snd (close ! k)) / real w) else None)"
proof -
  have m: "map (\<lambda>x. Some (snd x)) close = map Some (map snd close)" by simp
  have "snd (moving_average close (int w) ! i) = rolling_mean w (map Some (map snd close)) ! i"
    using assms unfolding moving_average_def m by (simp add: length_rolling_mean)
  also have "\<dots> = (if w - 1 \<le> i then Some ((\<Sum>k = i + 1 - w..i. map snd close ! k) / real w) else None)"
    using assms by (intro rolling_mean_nth) simp_all
  also have "\<dots> = (if w - 1 \<le> i then Some ((\<Sum>k = i + 1 - w..i. snd (close ! k)) / real w) else None)"
    using assms by (auto intro!: sum.cong)
  finally show ?thesis .
qed

lemma map_of_windows:
  "w \<in> set windows \<Longrightarrow> map_of (map (\<lambda>w. (w, f w)) windows) w = Some (f w)"
  by (induction windows) auto

text \<open>
  C2: for a window \<open>w \<ge> 1\<close> the moving average is aligned with the price series, its
  value at index \<open>i\<close> is the mean of the prices at the indices \<open>i - w + 1\<close> to \<open>i\<close>
  when \<open>i \<ge> w - 1\<close> and is undefined (None, not zero) before; the column that the
  pipeline adds for \<open>w\<close> is that series; and the back-test takes its indicators and
  signals from the whole price history and slices them afterwards.
\<close>

theorem moving_average_full_history:
  assumes "1 \<le> w" and "i < length close_price"
  shows "map fst (moving_average close_price (int w)) = map fst close_price \<and>
         snd (moving_average close_price (int w) ! i) =
           (if w - 1 \<le> i
            then Some ((\<Sum>k = i + 1 - w..i. snd (close_price ! k)) / real w) else None) \<and>
         (Close \<in> set (columns df) \<and> w \<in> set windows \<and>
          map close_v (rows df) = map (\<lambda>x. Some (snd x)) close_price \<longrightarrow>
            map_of (calculate_moving_averages df windows) w =
              Some (map snd (moving_average close_price (int w)))) \<and>
         backtest_slices vbt_spec close_price sw lw (Some ts_start) (Some ts_end) =
           (loc_slice ts_start ts_end close_price,
            loc_slice ts_start ts_end
              (crossed_above_series (moving_average close_price sw) (moving_average close_price lw)),
            loc_slice ts_start ts_end
              (crossed_below_series (moving_average close_price sw) (moving_average close_price lw)))"
proof -
  have col: "map snd (moving_average close_price (int w)) =
               rolling_mean w (map (\<lambda>x. Some (snd x)) close_price)"
    by (simp add: moving_average_def length_rolling_mean)
  have "map_of (calculate_moving_averages df windows) w =
          Some (map snd (moving_average close_price (int w)))"
    if "Close \<in> set (columns df)" "w \<in> set windows"
      "map close_v (rows df) = map (\<lambda>x. Some (snd x)) close_price"
    using that by (simp add: calculate_moving_averages_def map_of_windows col)
  then show ?thesis
    using assms
    by (simp add: moving_average_dates moving_average_nth backtest_slices_def vbt_spec_def
        Let_def)
qed

theorem moving_average_full_history_witness:
  "(1::nat) \<le> 2 \<and> 2 < length ex_prices \<and>
   snd (moving_average ex_prices 2 ! 2) = Some 25 \<and>
   fst (backtest_slices vbt_spec ex_prices 2 3 (Some 3) (Some 4)) = [(3, 30), (4, 40)]"
proof -
  have l: "2 < length ex_prices" by (simp add: ex_prices_def)
  have k: "{Suc 0..2} = {1, 2::nat}" by auto
  from moving_average_full_history [of 2 2 ex_prices ex_df "[20, 50, 100, 200]" 2 3 3 4] l
  show ?thesis
    by (simp add: k) (simp add: ex_prices_def loc_slice_def)
qed

subsection \<open>Crossover signals\<close>

lemma length_scan_cross: "length (scan_cross cross fp sp zs) = length zs"
  by (induction zs arbitrary: fp sp) auto

lemma scan_cross_nth:
  "i < length zs \<Longrightarrow>
   scan_cross cross fp sp zs ! i =
     (if i = 0 then cross fp sp (fst (zs ! 0)) (snd (zs ! 0))
      else cross (fst (zs ! (i - 1))) (snd (zs ! (i - 1))) (fst (zs ! i)) (snd (zs ! i)))"
proof (induction zs arbitrary: fp sp i)
  case Nil
  then show ?case by simp
next
  case (Cons z zs)
  obtain f s where z: "z = (f, s)" by (cases z)
  show ?case
  proof (cases i)
    case 0
    with z show ?thesis by simp
  next
    case (Suc j)
    with Cons.prems have "j < length zs" by simp
    then have "scan_cross cross f s zs ! j =
       (if j = 0 then cross f s (fst (zs ! 0)) (snd (zs ! 0))
        else cross (fst (zs ! (j - 1))) (snd (zs ! (j - 1))) (fst (zs ! j)) (snd (zs ! j)))"
      by (rule Cons.IH)
    with Suc z show ?thesis by (cases j) simp_all
  qed
qed

lemma crossed_above_at_iff:
  "crossed_above_at a b c d \<longleftrightarrow>
     (\<exists>fp sp f s. a = Some fp \<and> b = Some sp \<and> c = Some f \<and> d = Some s \<and> fp \<le> sp \<and> f > s)"
  by (cases a; cases b; cases c; cases d) simp_all

lemma crossed_below_at_iff:
  "crossed_below_at a b c d \<longleftrightarrow>
     (\<exists>fp sp f s. a = Some fp \<and> b = Some sp \<and> c = Some f \<and> d = Some s \<and> fp \<ge> sp \<and> f < s)"
  by (cases a; cases b; cases c; cases d) simp_all

text \<open>
  C3: for aligned fast and slow indicators, the entry signal at \<open>i\<close> holds exactly when
  both indicators are defined at \<open>i - 1\<close> and \<open>i\<close> with fast \<open>\<le>\<close> slow at \<open>i - 1\<close> and
  fast \<open>>\<close> slow at \<open>i\<close>, the exit signal symmetrically; a tie at \<open>i\<close> gives neither,
  and entry and exit are never both true at one index.
\<close>

theorem crossover_signals:
  assumes "length fast = length slow" and "i < length fast"
  shows "length (crossed_above fast slow) = length fast \<and>
         length (crossed_below fast slow) = length fast \<and>
         (crossed_above fast slow ! i \<longleftrightarrow>
            0 < i \<and> (\<exists>fp sp f s. fast ! (i - 1) = Some fp \<and> slow ! (i - 1) = Some sp \<and>
               fast ! i = Some f \<and> slow ! i = Some s \<and> fp \<le> sp \<and> f > s)) \<and>
         (crossed_below fast slow ! i \<longleftrightarrow>
            0 < i \<and> (\<exists>fp sp f s. fast ! (i - 1) = Some fp \<and> slow ! (i - 1) = Some sp \<and>
               fast ! i = Some f \<and> slow ! i = Some s \<and> fp \<ge> sp \<and> f < s)) \<and>
         (fast ! i = slow ! i \<longrightarrow> \<not> crossed_above fast slow ! i \<and> \<not> crossed_below fast slow ! i) \<and>
         \<not> (crossed_above fast slow ! i \<and> crossed_below fast slow ! i)"
proof -
  let ?zs = "zip fast slow"
  have len: "length ?zs = length fast" and i: "i < length ?zs"
    using assms by simp_all
  have prev: "0 < i \<Longrightarrow> fst (?zs ! (i - 1)) = fast ! (i - 1) \<and> snd (?zs ! (i - 1)) = slow ! (i - 1)"
    using assms by simp
  have cur: "fst (?zs ! i) = fast ! i \<and> snd (?zs ! i) = slow ! i"
    using assms by simp
  have a: "crossed_above fast slow ! i \<longleftrightarrow>
            0 < i \<and> (\<exists>fp sp f s. fast ! (i - 1) = Some fp \<and> slow ! (i - 1) = Some sp \<and>
               fast ! i = Some f \<and> slow ! i = Some s \<and> fp \<le> sp \<and> f > s)"
    unfolding crossed_above_def scan_cross_nth [OF i]
    using prev cur by (cases "i = 0") (simp_all add: crossed_above_at_iff)
  have b: "crossed_below fast slow ! i \<longleftrightarrow>
            0 < i \<and> (\<exists>fp sp f s. fast ! (i - 1) = Some fp \<and> slow ! (i - 1) = Some sp \<and>
               fast ! i = Some f \<and> slow ! i = Some s \<and> fp \<ge> sp \<and> f < s)"
    unfolding crossed_below_def scan_cross_nth [OF i]
    using prev cur by (cases "i = 0") (simp_all add: crossed_below_at_iff)
  have l: "length (crossed_above fast slow) = length fast"
      "length (crossed_below fast slow) = length fast"
    using len by (simp_all add: crossed_above_def crossed_below_def length_scan_cross)
  have tie: "fast ! i = slow ! i \<longrightarrow> \<not> crossed_above fast slow ! i \<and> \<not> crossed_below fast slow ! i"
    unfolding a b by auto
  have excl: "\<not> (crossed_above fast slow ! i \<and> crossed_below fast slow ! i)"
    unfolding a b by auto
  from l a b tie excl show ?thesis by blast
qed

theorem crossover_signals_witness:
  "length ex_fast = length ex_slow \<and> 2 < length ex_fast \<and>
   crossed_above ex_fast ex_slow ! 2 \<and> \<not> crossed_below ex_fast ex_slow ! 2"
proof -
  have l: "length ex_fast = length ex_slow" by (simp add: ex_fast_def ex_slow_def)
  have i: "2 < length ex_fast" by (simp add: ex_fast_def)
  have v: "ex_fast ! (2 - 1) = Some 1" "ex_slow ! (2 - 1) = Some 2"
      "ex_fast ! 2 = Some 3" "ex_slow ! 2 = Some 2"
    by (simp_all add: ex_fast_def ex_slow_def)
  from crossover_signals [OF l i] v l i show ?thesis by simp
qed

subsection \<open>\<^verbatim>\<open>sma_crossover_backtest\<close>\<close>

text \<open>
  C4: for a price series with increasing dates and a window from \<open>ts_start\<close> to
  \<open>ts_end\<close>, whatever the library functions are, the back-test returns None exactly
  when no date of the series lies in the window; otherwise it returns a portfolio
  (Some), which differs from None whatever trades that portfolio holds.
\<close>

theorem empty_window_no_result:
  assumes "sorted_wrt (<) (map fst close_price)"
  shows "(sma_crossover_backtest lib close_price sw lw (Some ts_start) (Some ts_end) = None) =
           (\<forall>x \<in> set close_price. \<not> (ts_start \<le> fst x \<and> fst x \<le> ts_end)) \<and>
         ((\<exists>x \<in> set close_price. ts_start \<le> fst x \<and> fst x \<le> ts_end) \<longrightarrow>
            (\<exists>entries exits.
               sma_crossover_backtest lib close_price sw lw (Some ts_start) (Some ts_end) =
                 Some (from_signals lib (loc_slice ts_start ts_end close_price)
                         (loc_slice ts_start ts_end entries)
                         (loc_slice ts_start ts_end exits) 100000)))"
  by (auto simp: sma_crossover_backtest_def backtest_slices_def loc_slice_def Let_def
      filter_empty_conv)

theorem empty_window_no_result_witness:
  "sorted_wrt (<) (map fst ex_prices) \<and>
   loc_slice 5 9 ex_prices = [] \<and>
   sma_crossover_backtest vbt_spec ex_prices 2 3 (Some 5) (Some 9) = None \<and>
   loc_slice 3 9 ex_prices = [(3, 30), (4, 40)] \<and>
   sma_crossover_backtest vbt_spec ex_prices 2 3 (Some 3) (Some 9) \<noteq> None"
proof -
  have s: "sorted_wrt (<) (map fst ex_prices)" by (simp add: ex_prices_def)
  have e: "loc_slice 5 9 ex_prices = []" "loc_slice 3 9 ex_prices = [(3, 30), (4, 40)]"
    by (simp_all add: ex_prices_def loc_slice_def)
  have n: "\<forall>x \<in> set ex_prices. \<not> (5 \<le> fst x \<and> fst x \<le> 9)"
      "\<not> (\<forall>x \<in> set ex_prices. \<not> (3 \<le> fst x \<and> fst x \<le> 9))"
    by (simp_all add: ex_prices_def)
  from empty_window_no_result [OF s, of vbt_spec 2 3 5 9]
    empty_window_no_result [OF s, of vbt_spec 2 3 3 9] s e n
  show ?thesis by simp
qed

subsection \<open>The portfolio simulator\<close>

lemma equity_transition: "equity (transition s d p en ex) = equity s"
  by (cases "position s") (simp_all add: transition_def)

lemma length_equity_foldl:
  "length (equity (foldl step s0 bs)) = length (equity s0) + length bs"
proof (induction bs arbitrary: s0)
  case Nil
  show ?case by simp
next
  case (Cons b bs)
  obtain d p en ex where b: "b = (d, p, en, ex)" by (cases b)
  have "length (equity (step s0 b)) = Suc (length (equity s0))"
    by (simp add: b Let_def equity_transition)
  with Cons.IH [of "step s0 b"] show ?case by simp
qed

text \<open>
  C1: the simulator replays the dates in order (the state after one more date is one
  step from the state before it) and records one equity point per date. On a date
  whose signals are not both true: flat with an entry signal, all cash becomes
  \<open>cash / price\<close> units and the state is long; long with an exit signal, the units are
  sold at the price into cash, the state is flat and a trade with P and L
  \<open>quantity * (exit price - entry price)\<close> is recorded; otherwise cash, position and
  trades are unchanged; and the equity point of the date is the cash when flat, else
  \<open>quantity * price\<close>.
\<close>

theorem simulator_state_machine:
  assumes "\<not> (en \<and> ex)"
  shows "replay c (bars @ [(d, p, en, ex)]) = step (replay c bars) (d, p, en, ex) \<and>
         length (equity (replay c bars)) = length bars \<and>
         (position s = FLAT \<and> en \<longrightarrow>
            cash (step s (d, p, en, ex)) = 0 \<and>
            position (step s (d, p, en, ex)) = LONG (cash s / p) p d \<and>
            trades (step s (d, p, en, ex)) = trades s) \<and>
         (position s = LONG q ep ed \<and> ex \<longrightarrow>
            cash (step s (d, p, en, ex)) = cash s + q * p \<and>
            position (step s (d, p, en, ex)) = FLAT \<and>
            trades (step s (d, p, en, ex)) = trades s @ [close_trade q ep ed p d] \<and>
            pnl (close_trade q ep ed p d) = q * (p - ep) \<and>
            entry_price (close_trade q ep ed p d) = ep \<and>
            exit_price (close_trade q ep ed p d) = p \<and>
            quantity (close_trade q ep ed p d) = q) \<and>
         (\<not> (position s = FLAT \<and> en) \<and> \<not> (position s \<noteq> FLAT \<and> ex) \<longrightarrow>
            cash (step s (d, p, en, ex)) = cash s \<and>
            position (step s (d, p, en, ex)) = position s \<and>
            trades (step s (d, p, en, ex)) = trades s) \<and>
         equity (step s (d, p, en, ex)) =
           equity s @ [(d, case position (step s (d, p, en, ex)) of
                             FLAT \<Rightarrow> cash (step s (d, p, en, ex))
                           | LONG q' ep' ed' \<Rightarrow> q' * p)]"
proof -
  have "length (equity (replay c bars)) = length bars"
    by (simp add: replay_def length_equity_foldl initial_def)
  moreover have "replay c (bars @ [(d, p, en, ex)]) = step (replay c bars) (d, p, en, ex)"
    by (simp add: replay_def)
  moreover have "position s = FLAT \<and> en \<longrightarrow>
            cash (step s (d, p, en, ex)) = 0 \<and>
            position (step s (d, p, en, ex)) = LONG (cash s / p) p d \<and>
            trades (step s (d, p, en, ex)) = trades s"
    using assms by (simp add: transition_def Let_def)
  moreover have "position s = LONG q ep ed \<and> ex \<longrightarrow>
            cash (step s (d, p, en, ex)) = cash s + q * p \<and>
            position (step s (d, p, en, ex)) = FLAT \<and>
            trades (step s (d, p, en, ex)) = trades s @ [close_trade q ep ed p d] \<and>
            pnl (close_trade q ep ed p d) = q * (p - ep) \<and>
            entry_price (close_trade q ep ed p d) = ep \<and>
            exit_price (close_trade q ep ed p d) = p \<and>
            quantity (close_trade q ep ed p d) = q"
    by (simp add: transition_def Let_def close_trade_def)
  moreover have "\<not> (position s = FLAT \<and> en) \<and> \<not> (position s \<noteq> FLAT \<and> ex) \<longrightarrow>
            cash (step s (d, p, en, ex)) = cash s \<and>
            position (step s (d, p, en, ex)) = position s \<and>
            trades (step s (d, p, en, ex)) = trades s"
    by (cases "position s") (auto simp: transition_def Let_def)
  moreover have "equity (step s (d, p, en, ex)) =
           equity s @ [(d, case position (step s (d, p, en, ex)) of
                             FLAT \<Rightarrow> cash (step s (d, p, en, ex))
                           | LONG q' ep' ed' \<Rightarrow> q' * p)]"
    by (cases "position s") (simp_all add: transition_def Let_def mark_to_market_def)
  ultimately show ?thesis by blast
qed

theorem simulator_state_machine_witness:
  "\<not> (True \<and> False) \<and>
   position (replay 100000 [(1, 100, False, False)]) = FLAT \<and>
   position (replay 100000 ([(1, 100, False, False)] @ [(2, 50, True, False)])) = LONG 2000 50 2 \<and>
   cash (replay 100000 ([(1, 100, False, False)] @ [(2, 50, True, False)])) = 0"
proof -
  have s: "position (replay 100000 [(1, 100, False, False)]) = FLAT"
      "cash (replay 100000 [(1, 100, False, False)]) = 100000"
    by (simp_all add: replay_def initial_def transition_def)
  have h: "\<not> (True \<and> False)" by simp
  from simulator_state_machine [OF h, of 100000 "[(1, 100, False, False)]" 2 50
      "replay 100000 [(1, 100, False, False)]"] s
  show ?thesis by simp
qed

subsection \<open>The win rate and its display\<close>

text \<open>
  C5: with no closed trade the win rate is undefined (None) and the dashboard shows a
  status, holding or no trades, never a win rate of 0; with closed trades the win rate
  is the number of closed trades with a positive P and L over the number of closed
  trades, times 100, it lies between 0 and 100, and the dashboard shows it.
\<close>

theorem win_rate_rendering:
  "(ts = [] \<longrightarrow>
      win_rate ts = None \<and>
      (col2_metric (win_rate ts) n = Current_Status_Holding \<or>
       col2_metric (win_rate ts) n = Current_Status_No_Trades) \<and>
      col2_metric (win_rate ts) n \<noteq> Win_Rate 0) \<and>
   (ts \<noteq> [] \<longrightarrow>
      win_rate ts =
        Some (real (length (filter (\<lambda>t. 0 < pnl t) ts)) / real (length ts) * 100) \<and>
      col2_metric (win_rate ts) n = Win_Rate (the (win_rate ts)) \<and>
      0 \<le> the (win_rate ts) \<and> the (win_rate ts) \<le> 100)"
proof -
  have "real (length (filter (\<lambda>t. 0 < pnl t) ts)) \<le> real (length ts)"
    by simp
  then have "ts \<noteq> [] \<Longrightarrow>
      real (length (filter (\<lambda>t. 0 < pnl t) ts)) / real (length ts) * 100 \<le> 100"
    by (simp add: divide_le_eq)
  then show ?thesis
    by (auto simp: win_rate_def col2_metric_def)
qed

theorem win_rate_rendering_witness:
  "ex_trades \<noteq> [] \<and> win_rate ex_trades = Some 50 \<and>
   col2_metric (win_rate ex_trades) 2 = Win_Rate 50 \<and>
   win_rate [] = None \<and> col2_metric (win_rate []) 1 = Current_Status_Holding"
proof -
  have n: "ex_trades \<noteq> []" by (simp add: ex_trades_def)
  have w: "real (length (filter (\<lambda>t. 0 < pnl t) ex_trades)) / real (length ex_trades) * 100 = 50"
    by (simp add: ex_trades_def close_trade_def)
  have h: "col2_metric None 1 = Current_Status_Holding" by (simp add: col2_metric_def)
  from win_rate_rendering [of ex_trades 2] win_rate_rendering [of "[]" 1] n w h
  show ?thesis by (simp add: col2_metric_def)
qed

end
